theory Spec2Isabelle
  imports Main
begin

section \<open>The token reader (encoding/xml, at its interface)\<close>

text \<open>
  \<^verbatim>\<open>xml.Name\<close>, \<^verbatim>\<open>xml.Attr\<close>, \<^verbatim>\<open>xml.StartElement\<close> and the token kinds of
  \<^verbatim>\<open>encoding/xml\<close>. Names are the translated ones the decoder hands out: \<open>Space\<close> is the
  namespace, \<open>Local\<close> the local name.
\<close>

datatype Name = Name (Space: string) (Local: string)

datatype Attr = Attr (AttrName: Name) (Value: string)

datatype StartElement = StartElement (ElemName: Name) (ElemAttr: "Attr list")

datatype Token =
    Start StartElement
  | End Name
  | CharData string
  | Comment string
  | ProcInst string string
  | Directive string

text \<open>\<^verbatim>\<open>start.End()\<close>: the end element matching a start element.\<close>

definition EndOf :: "StartElement \<Rightarrow> Token" where
  "EndOf start = End (ElemName start)"

text \<open>
  Errors are values. \<open>EOF\<close> is \<^verbatim>\<open>io.EOF\<close>, \<open>SyntaxError\<close> a tokenizer failure
  (\<^verbatim>\<open>*xml.SyntaxError\<close>), \<open>UnmarshalError\<close> the name check of a struct with an
  \<^verbatim>\<open>XMLName\<close> tag, \<open>NotConsumed\<close> the library's
  \<^verbatim>\<open>"UnmarshalXML did not consume entire element"\<close>, and \<open>NilDeref\<close> the panic of
  \<^verbatim>\<open>pushEOF\<close> on a decoder with no open element.
\<close>

datatype error = EOF | SyntaxError | UnmarshalError | NotConsumed | NilDeref

text \<open>
  The decoder's state: the tokens still to come, the error the reader reports once they
  are used up (end of stream or a tokenizer failure; it is sticky), and the decoder's
  stack of open elements with the end-of-element marks \<^verbatim>\<open>DecodeElement\<close> pushes for an
  \<^verbatim>\<open>Unmarshaler\<close> (\<^verbatim>\<open>stkStart\<close> and \<^verbatim>\<open>stkEOF\<close>).
\<close>

datatype frame = Open Name | EOFMark

record Decoder =
  toks :: "Token list"
  terr :: error
  stk :: "frame list"

text \<open>
  \<^verbatim>\<open>d.Token()\<close>. At an end-of-element mark it returns \<^verbatim>\<open>io.EOF\<close> and reads nothing.
  A start element is pushed, an end element must close the element on top of the stack
  (otherwise a syntax error, which sticks), any other token is handed out as it is.
\<close>

definition syntax_failure :: "Decoder \<Rightarrow> (error + Token) \<times> Decoder" where
  "syntax_failure d = (Inl SyntaxError, d\<lparr>toks := [], terr := SyntaxError\<rparr>)"

fun Decoder_Token :: "Decoder \<Rightarrow> (error + Token) \<times> Decoder" where
  "Decoder_Token d =
     (case stk d of
        EOFMark # _ \<Rightarrow> (Inl EOF, d)
      | _ \<Rightarrow>
        (case toks d of
           [] \<Rightarrow> (Inl (terr d), d)
         | Start se # ts \<Rightarrow> (Inr (Start se), d\<lparr>toks := ts, stk := Open (ElemName se) # stk d\<rparr>)
         | End n # ts \<Rightarrow>
             (case stk d of
                Open m # s \<Rightarrow>
                  if m = n then (Inr (End n), d\<lparr>toks := ts, stk := s\<rparr>)
                  else syntax_failure d
              | _ \<Rightarrow> syntax_failure d)
         | t # ts \<Rightarrow> (Inr t, d\<lparr>toks := ts\<rparr>)))"

lemma Token_shrinks:
  "Decoder_Token d = (Inr t, d') \<Longrightarrow> length (toks d') < length (toks d)"
  by (auto simp: syntax_failure_def split: list.splits frame.splits Token.splits if_splits)

declare Decoder_Token.simps [simp del]

text \<open>
  Reading the rest of the element the decoder is in, up to its matching end element:
  the loop of \<^verbatim>\<open>d.Skip()\<close> with its depth counter, which here also keeps the character
  data that stands directly in the element (what \<^verbatim>\<open>unmarshal\<close> saves for a string
  target while it skips every child element).
\<close>

function readElement :: "nat \<Rightarrow> string \<Rightarrow> Decoder \<Rightarrow> (error + string) \<times> Decoder" where
  "readElement depth data d =
     (case Decoder_Token d of
        (Inl e, d') \<Rightarrow> (Inl e, d')
      | (Inr (Start _), d') \<Rightarrow> readElement (Suc depth) data d'
      | (Inr (End _), d') \<Rightarrow>
          (case depth of 0 \<Rightarrow> (Inr data, d') | Suc k \<Rightarrow> readElement k data d')
      | (Inr (CharData s), d') \<Rightarrow>
          readElement depth (if depth = 0 then data @ s else data) d'
      | (Inr _, d') \<Rightarrow> readElement depth data d')"
  by pat_completeness auto
termination
  by (relation "measure (\<lambda>(depth, data, d). length (toks d))")
     (auto dest: Token_shrinks [OF sym])

declare readElement.simps [simp del]

text \<open>\<^verbatim>\<open>d.Skip()\<close>.\<close>

definition Skip :: "Decoder \<Rightarrow> error option \<times> Decoder" where
  "Skip d =
     (case readElement 0 [] d of
        (Inl e, d') \<Rightarrow> (Some e, d')
      | (Inr _, d') \<Rightarrow> (None, d'))"

text \<open>
  \<^verbatim>\<open>d.DecodeElement(&s, &tt)\<close> for a string target: the character data directly in the
  element; the target is only written when the whole element was read.
\<close>

definition DecodeElement_string :: "Decoder \<Rightarrow> (error + string) \<times> Decoder" where
  "DecodeElement_string d = readElement 0 [] d"


section \<open>The message packet (message.go)\<close>

text \<open>
  The extension structs of message.go. Each has an \<^verbatim>\<open>XMLName\<close> field; four of them
  have an \<^verbatim>\<open>Id\<close> field read from the attribute \<^verbatim>\<open>id\<close>. (The embedded
  \<^verbatim>\<open>MsgExtension\<close> interface field is nil in every value and is left out.)
\<close>

datatype MsgExtension =
    ReceiptRequest Name
  | ReceiptReceived Name string
  | ChatMarkerMarkable Name
  | ChatMarkerReceived Name string
  | ChatMarkerDisplayed Name string
  | ChatMarkerAcknowledged Name string

text \<open>\<^verbatim>\<open>MsgXOOB\<close> (XEP-0066): \<^verbatim>\<open>XMLName\<close>, \<^verbatim>\<open>URL\<close>, \<^verbatim>\<open>Desc\<close>.\<close>

datatype MsgXOOB = MsgXOOB (OOBName: Name) (URL: string) (Desc: string)

text \<open>
  Modelled from the spec: the type \<^verbatim>\<open>Err\<close> of the field \<^verbatim>\<open>Message.Error\<close> is declared
  outside the files at hand. The spec calls it an optional structured payload that is
  opaque to this core, so it is kept as the raw content of the \<^verbatim>\<open>error\<close> element: its
  attributes and the tokens between its start and its end. The zero value is
  \<open>Err [] []\<close>.
\<close>

datatype Err = Err (ErrAttr: "Attr list") (ErrContent: "Token list")

text \<open>
  \<^verbatim>\<open>PacketAttrs\<close> is embedded in \<^verbatim>\<open>Message\<close>; its fields are the ones message.go
  assigns (\<^verbatim>\<open>Id\<close> is written \<open>Id_attr\<close> here, \<open>Id\<close> being the identity relation of
  HOL).
\<close>

record PacketAttrs =
  Id_attr :: string
  From :: string
  To :: string
  Type :: string
  Lang :: string

record Message = PacketAttrs +
  XMLName :: Name
  Subject :: string
  Body :: string
  Thread :: string
  Error :: Err
  Extensions :: "MsgExtension list"
  X :: "MsgXOOB option"

text \<open>The zero value \<^verbatim>\<open>var packet Message\<close>.\<close>

definition Message_zero :: Message where
  "Message_zero =
     \<lparr>Id_attr = [], From = [], To = [], Type = [], Lang = [],
      XMLName = Name [] [], Subject = [], Body = [], Thread = [],
      Error = Err [] [], Extensions = [], X = None\<rparr>"


subsection \<open>The registry\<close>

text \<open>
  \<^verbatim>\<open>reflect.Type\<close> values of the extension structs, and the registry
  \<^verbatim>\<open>map[string]map[string]reflect.Type\<close>. Indexing a missing namespace gives the nil
  map, and indexing that gives the nil type: both are \<open>None\<close> in \<open>registry_lookup\<close>.
\<close>

datatype reflect_Type =
    T_ReceiptRequest
  | T_ReceiptReceived
  | T_ChatMarkerMarkable
  | T_ChatMarkerReceived
  | T_ChatMarkerDisplayed
  | T_ChatMarkerAcknowledged

type_synonym registry = "string \<Rightarrow> (string \<Rightarrow> reflect_Type option) option"

definition registry_lookup :: "registry \<Rightarrow> string \<Rightarrow> string \<Rightarrow> reflect_Type option" where
  "registry_lookup reg space local =
     (case reg space of None \<Rightarrow> None | Some m \<Rightarrow> m local)"

definition NSSpaceXEP0184Receipt :: string where
  "NSSpaceXEP0184Receipt = ''urn:xmpp:receipts''"

definition NSSpaceXEP0333ChatMarkers :: string where
  "NSSpaceXEP0333ChatMarkers = ''urn:xmpp:chat-markers:0''"

text \<open>\<^verbatim>\<open>msgTypeRegistry\<close> as \<^verbatim>\<open>init()\<close> leaves it.\<close>

definition msgTypeRegistry :: registry where
  "msgTypeRegistry =
     [NSSpaceXEP0184Receipt \<mapsto>
        [''request'' \<mapsto> T_ReceiptRequest,
         ''received'' \<mapsto> T_ReceiptReceived],
      NSSpaceXEP0333ChatMarkers \<mapsto>
        [''markable'' \<mapsto> T_ChatMarkerMarkable,
         ''received'' \<mapsto> T_ChatMarkerReceived,
         ''displayed'' \<mapsto> T_ChatMarkerDisplayed,
         ''acknowledged'' \<mapsto> T_ChatMarkerAcknowledged]]"

text \<open>The \<^verbatim>\<open>xml:"space local"\<close> tag on the \<^verbatim>\<open>XMLName\<close> field of each struct.\<close>

fun XMLName_tag :: "reflect_Type \<Rightarrow> Name" where
  "XMLName_tag T_ReceiptRequest = Name ''urn:xmpp:receipts'' ''request''"
| "XMLName_tag T_ReceiptReceived = Name ''urn:xmpp:receipts'' ''received''"
| "XMLName_tag T_ChatMarkerMarkable = Name ''urn:xmpp:chat-markers:0'' ''markable''"
| "XMLName_tag T_ChatMarkerReceived = Name ''urn:xmpp:chat-markers:0'' ''received''"
| "XMLName_tag T_ChatMarkerDisplayed = Name ''urn:xmpp:chat-markers:0'' ''displayed''"
| "XMLName_tag T_ChatMarkerAcknowledged = Name ''urn:xmpp:chat-markers:0'' ''acknowledged''"

text \<open>
  A value of the given type with its \<^verbatim>\<open>XMLName\<close> and (where the struct has one) its
  \<^verbatim>\<open>Id\<close>; \<^verbatim>\<open>reflect.New\<close> gives the one with the empty name and the empty id.
\<close>

fun instance_of :: "reflect_Type \<Rightarrow> Name \<Rightarrow> string \<Rightarrow> MsgExtension" where
  "instance_of T_ReceiptRequest n i = ReceiptRequest n"
| "instance_of T_ReceiptReceived n i = ReceiptReceived n i"
| "instance_of T_ChatMarkerMarkable n i = ChatMarkerMarkable n"
| "instance_of T_ChatMarkerReceived n i = ChatMarkerReceived n i"
| "instance_of T_ChatMarkerDisplayed n i = ChatMarkerDisplayed n i"
| "instance_of T_ChatMarkerAcknowledged n i = ChatMarkerAcknowledged n i"

text \<open>
  The field tagged \<^verbatim>\<open>xml:"id,attr"\<close>: every attribute whose local name is \<^verbatim>\<open>id\<close> is
  copied into it, in the order of the attribute list.
\<close>

fun attr_Id :: "Attr list \<Rightarrow> string \<Rightarrow> string" where
  "attr_Id [] i = i"
| "attr_Id (a # as) i = attr_Id as (if Local (AttrName a) = ''id'' then Value a else i)"

text \<open>
  \<^verbatim>\<open>d.DecodeElement(elt, &tt)\<close> for \<^verbatim>\<open>elt = reflect.New(extensionType)\<close>: the element's
  name must be the one of the struct's \<^verbatim>\<open>XMLName\<close> tag; the attributes are read, and
  the content of the element is read over (no struct has a field for it).
\<close>

definition DecodeElement_ext ::
  "reflect_Type \<Rightarrow> Decoder \<Rightarrow> StartElement \<Rightarrow> (error + MsgExtension) \<times> Decoder" where
  "DecodeElement_ext ty d tt =
     (let tag = XMLName_tag ty in
      if Local tag \<noteq> [] \<and> Local tag \<noteq> Local (ElemName tt) then (Inl UnmarshalError, d)
      else if Space tag \<noteq> [] \<and> Space tag \<noteq> Space (ElemName tt) then (Inl UnmarshalError, d)
      else
        (case Skip d of
           (Some e, d') \<Rightarrow> (Inl e, d')
         | (None, d') \<Rightarrow> (Inr (instance_of ty (ElemName tt) (attr_Id (ElemAttr tt) [])), d')))"

text \<open>
  \<^verbatim>\<open>d.DecodeElement(&msg.Error, &tt)\<close>, for the modelled \<open>Err\<close>: the element is read to
  its end and its raw content kept.
\<close>

definition DecodeElement_Err :: "Decoder \<Rightarrow> StartElement \<Rightarrow> (error + Err) \<times> Decoder" where
  "DecodeElement_Err d tt =
     (case Skip d of
        (Some e, d') \<Rightarrow> (Inl e, d')
      | (None, d') \<Rightarrow>
          (Inr (Err (ElemAttr tt)
                  (take (length (toks d) - length (toks d') - 1) (toks d))), d'))"

subsection \<open>Message.UnmarshalXML\<close>

text \<open>The body of the loop over \<^verbatim>\<open>start.Attr\<close>: five independent tests on the local name.\<close>

definition setAttr :: "Attr \<Rightarrow> Message \<Rightarrow> Message" where
  "setAttr attr msg =
     (let msg = (if Local (AttrName attr) = ''id'' then msg\<lparr>Id_attr := Value attr\<rparr> else msg);
          msg = (if Local (AttrName attr) = ''type'' then msg\<lparr>Type := Value attr\<rparr> else msg);
          msg = (if Local (AttrName attr) = ''to'' then msg\<lparr>To := Value attr\<rparr> else msg);
          msg = (if Local (AttrName attr) = ''from'' then msg\<lparr>From := Value attr\<rparr> else msg);
          msg = (if Local (AttrName attr) = ''lang'' then msg\<lparr>Lang := Value attr\<rparr> else msg)
      in msg)"

fun extractAttrs :: "Attr list \<Rightarrow> Message \<Rightarrow> Message" where
  "extractAttrs [] msg = msg"
| "extractAttrs (attr # attrs) msg = extractAttrs attrs (setAttr attr msg)"

lemma readElement_Inl:
  "Decoder_Token d = (Inl e, d1) \<Longrightarrow> readElement k data d = (Inl e, d1)"
  by (simp add: readElement.simps [of k data d])

lemma readElement_Start:
  "Decoder_Token d = (Inr (Start se), d1) \<Longrightarrow>
   readElement k data d = readElement (Suc k) data d1"
  by (simp add: readElement.simps [of k data d])

lemma readElement_End_0:
  "Decoder_Token d = (Inr (End n), d1) \<Longrightarrow> readElement 0 data d = (Inr data, d1)"
  by (simp add: readElement.simps [of 0 data d])

lemma readElement_End_Suc:
  "Decoder_Token d = (Inr (End n), d1) \<Longrightarrow>
   readElement (Suc k) data d = readElement k data d1"
  by (simp add: readElement.simps [of "Suc k" data d])

lemma readElement_CharData:
  "Decoder_Token d = (Inr (CharData s), d1) \<Longrightarrow>
   readElement k data d = readElement k (if k = 0 then data @ s else data) d1"
  by (simp add: readElement.simps [of k data d])

lemma readElement_other:
  "Decoder_Token d = (Inr t, d1) \<Longrightarrow>
   t = Comment c \<or> t = ProcInst p q \<or> t = Directive c \<Longrightarrow>
   readElement k data d = readElement k data d1"
  by (auto simp: readElement.simps [of k data d])

lemma Token_Inl_toks:
  "Decoder_Token d = (Inl e, d1) \<Longrightarrow> length (toks d1) \<le> length (toks d)"
  by (auto simp: Decoder_Token.simps syntax_failure_def
      split: list.splits frame.splits Token.splits if_splits)

lemma readElement_shrinks:
  "readElement k data d = (r, d') \<Longrightarrow> length (toks d') \<le> length (toks d)"
proof (induction "length (toks d)" arbitrary: k data d rule: less_induct)
  case less
  obtain a d1 where tk: "Decoder_Token d = (a, d1)"
    by (cases "Decoder_Token d")
  show ?case
  proof (cases a)
    case (Inl e)
    with tk less.prems have "d' = d1"
      by (simp add: readElement_Inl)
    with tk Inl show ?thesis
      by (simp add: Token_Inl_toks)
  next
    case (Inr t)
    with tk have lt: "length (toks d1) < length (toks d)"
      by (simp add: Token_shrinks)
    have step: "readElement k2 data2 d1 = (r, d') \<Longrightarrow> ?thesis" for k2 data2
      using less.hyps [OF lt] lt by fastforce
    show ?thesis
    proof (cases t)
      case (Start se)
      with tk Inr less.prems show ?thesis
        by (intro step [of "Suc k" data]) (simp add: readElement_Start)
    next
      case (End n)
      show ?thesis
      proof (cases k)
        case 0
        with tk Inr End less.prems lt show ?thesis
          by (simp add: readElement_End_0)
      next
        case (Suc k2)
        with tk Inr End less.prems show ?thesis
          by (intro step [of k2 data]) (simp add: readElement_End_Suc)
      qed
    next
      case (CharData s)
      with tk Inr less.prems show ?thesis
        by (intro step [of k "if k = 0 then data @ s else data"])
           (simp add: readElement_CharData)
    next
      case (Comment c)
      with tk Inr less.prems show ?thesis
        by (intro step [of k data]) (simp add: readElement_other [where c = c])
    next
      case (ProcInst p q)
      with tk Inr less.prems show ?thesis
        by (intro step [of k data]) (simp add: readElement_other [where p = p and q = q])
    next
      case (Directive c)
      with tk Inr less.prems show ?thesis
        by (intro step [of k data]) (simp add: readElement_other [where c = c])
    qed
  qed
qed

lemma Skip_shrinks: "Skip d = (r, d') \<Longrightarrow> length (toks d') \<le> length (toks d)"
  by (auto simp: Skip_def split: prod.splits sum.splits dest: readElement_shrinks)

lemma DecodeElement_string_shrinks:
  "DecodeElement_string d = (r, d') \<Longrightarrow> length (toks d') \<le> length (toks d)"
  by (auto simp: DecodeElement_string_def dest: readElement_shrinks)

lemma DecodeElement_ext_shrinks:
  "DecodeElement_ext ty d tt = (r, d') \<Longrightarrow> length (toks d') \<le> length (toks d)"
  by (auto simp: DecodeElement_ext_def Let_def split: if_splits prod.splits option.splits
      dest: Skip_shrinks)

lemma DecodeElement_Err_shrinks:
  "DecodeElement_Err d tt = (r, d') \<Longrightarrow> length (toks d') \<le> length (toks d)"
  by (auto simp: DecodeElement_Err_def split: prod.splits option.splits dest: Skip_shrinks)

text \<open>
  The inner switch \<^verbatim>\<open>switch tt.Name.Local\<close> (the default message elements) with the
  \<^verbatim>\<open>err\<close> it leaves: one \<^verbatim>\<open>DecodeElement\<close> for each of the four names, and nothing at
  all for any other name.
\<close>

definition decodeDefault ::
  "Message \<Rightarrow> Decoder \<Rightarrow> StartElement \<Rightarrow> error option \<times> Message \<times> Decoder" where
  "decodeDefault msg d tt =
     (if Local (ElemName tt) = ''body'' then
        (case DecodeElement_string d of
           (Inl err, d') \<Rightarrow> (Some err, msg, d')
         | (Inr s, d') \<Rightarrow> (None, msg\<lparr>Body := s\<rparr>, d'))
      else if Local (ElemName tt) = ''thread'' then
        (case DecodeElement_string d of
           (Inl err, d') \<Rightarrow> (Some err, msg, d')
         | (Inr s, d') \<Rightarrow> (None, msg\<lparr>Thread := s\<rparr>, d'))
      else if Local (ElemName tt) = ''subject'' then
        (case DecodeElement_string d of
           (Inl err, d') \<Rightarrow> (Some err, msg, d')
         | (Inr s, d') \<Rightarrow> (None, msg\<lparr>Subject := s\<rparr>, d'))
      else if Local (ElemName tt) = ''error'' then
        (case DecodeElement_Err d tt of
           (Inl err, d') \<Rightarrow> (Some err, msg, d')
         | (Inr e, d') \<Rightarrow> (None, msg\<lparr>Error := e\<rparr>, d'))
      else (None, msg, d))"

text \<open>
  The case \<^verbatim>\<open>xml.StartElement\<close> of the outer switch: the registry is asked first, with
  the namespace and the local name of the element; only an element it does not know
  goes to the inner switch. (\<^verbatim>\<open>MsgExtension\<close> is the empty interface, so the type
  assertion \<^verbatim>\<open>elt.(MsgExtension)\<close> holds of every value.)
\<close>

definition decodeStartElement ::
  "registry \<Rightarrow> Message \<Rightarrow> Decoder \<Rightarrow> StartElement \<Rightarrow> error option \<times> Message \<times> Decoder" where
  "decodeStartElement reg msg d tt =
     (case registry_lookup reg (Space (ElemName tt)) (Local (ElemName tt)) of
        Some extensionType \<Rightarrow>
          (case DecodeElement_ext extensionType d tt of
             (Inl err, d') \<Rightarrow> (Some err, msg, d')
           | (Inr msgExt, d') \<Rightarrow> (None, msg\<lparr>Extensions := Extensions msg @ [msgExt]\<rparr>, d'))
      | None \<Rightarrow> decodeDefault msg d tt)"

lemma decodeDefault_shrinks:
  "decodeDefault msg d tt = (r, msg', d') \<Longrightarrow> length (toks d') \<le> length (toks d)"
  unfolding decodeDefault_def
  by (auto split: if_splits prod.splits sum.splits
      dest: DecodeElement_string_shrinks DecodeElement_Err_shrinks)

lemma decodeStartElement_shrinks:
  "decodeStartElement reg msg d tt = (r, msg', d') \<Longrightarrow> length (toks d') \<le> length (toks d)"
  unfolding decodeStartElement_def
  by (auto split: option.splits prod.splits sum.splits
      dest: DecodeElement_ext_shrinks decodeDefault_shrinks)

text \<open>
  The loop \<^verbatim>\<open>for { t, err := d.Token() ... }\<close> of \<^verbatim>\<open>UnmarshalXML\<close>. The result is the
  returned error (\<open>None\<close> is nil), the message as the calls have left it, and the decoder.
  The loop ends at a token error, at an error of a \<^verbatim>\<open>DecodeElement\<close>, or at an end
  element equal to \<^verbatim>\<open>start.End()\<close>.
\<close>

function decodeInner ::
  "registry \<Rightarrow> StartElement \<Rightarrow> Message \<Rightarrow> Decoder \<Rightarrow> error option \<times> Message \<times> Decoder" where
  "decodeInner reg start msg d =
     (case Decoder_Token d of
        (Inl err, d') \<Rightarrow> (Some err, msg, d')
      | (Inr (Start tt), d') \<Rightarrow>
          (case decodeStartElement reg msg d' tt of
             (Some err, msg', d'') \<Rightarrow> (Some err, msg', d'')
           | (None, msg', d'') \<Rightarrow> decodeInner reg start msg' d'')
      | (Inr tt, d') \<Rightarrow>
          if tt = EndOf start then (None, msg, d')
          else decodeInner reg start msg d')"
  by pat_completeness auto
termination
proof (relation "measure (\<lambda>(reg, start, msg, d). length (toks d))", goal_cases)
  case 1
  show ?case by simp
qed (auto dest!: Token_shrinks [OF sym] decodeStartElement_shrinks [OF sym])

declare decodeInner.simps [simp del]

text \<open>\<^verbatim>\<open>func (msg *Message) UnmarshalXML(d *xml.Decoder, start xml.StartElement) error\<close>.\<close>

definition UnmarshalXML ::
  "registry \<Rightarrow> Message \<Rightarrow> Decoder \<Rightarrow> StartElement \<Rightarrow> error option \<times> Message \<times> Decoder" where
  "UnmarshalXML reg msg d start =
     decodeInner reg start (extractAttrs (ElemAttr start) (msg\<lparr>XMLName := ElemName start\<rparr>)) d"


subsection \<open>messageDecoder.decode\<close>

text \<open>
  \<^verbatim>\<open>p.DecodeElement(&packet, &se)\<close> for a target with an \<^verbatim>\<open>UnmarshalXML\<close> method
  (\<^verbatim>\<open>unmarshalInterface\<close> of encoding/xml): an end-of-element mark is put below the
  innermost open element, the method runs, and the mark must then be on top of the
  stack, or the call fails with "did not consume entire element".
\<close>

fun pushEOF :: "frame list \<Rightarrow> frame list option" where
  "pushEOF [] = None"
| "pushEOF (Open n # s) = Some (Open n # EOFMark # s)"
| "pushEOF (EOFMark # s) = map_option ((#) EOFMark) (pushEOF s)"

definition popEOF :: "Decoder \<Rightarrow> bool \<times> Decoder" where
  "popEOF d = (case stk d of EOFMark # s \<Rightarrow> (True, d\<lparr>stk := s\<rparr>) | _ \<Rightarrow> (False, d))"

definition DecodeElement_Message ::
  "registry \<Rightarrow> Message \<Rightarrow> Decoder \<Rightarrow> StartElement \<Rightarrow> error option \<times> Message \<times> Decoder" where
  "DecodeElement_Message reg msg d start =
     (case pushEOF (stk d) of
        None \<Rightarrow> (Some NilDeref, msg, d)
      | Some s \<Rightarrow>
          (case UnmarshalXML reg msg (d\<lparr>stk := s\<rparr>) start of
             (Some err, msg', d') \<Rightarrow> (Some err, msg', snd (popEOF d'))
           | (None, msg', d') \<Rightarrow>
               (case popEOF d' of
                  (True, d'') \<Rightarrow> (None, msg', d'')
                | (False, d'') \<Rightarrow> (Some NotConsumed, msg', d''))))"

text \<open>
  \<^verbatim>\<open>func (messageDecoder) decode(p *xml.Decoder, se xml.StartElement) (Message, error)\<close>:
  the packet and the error are both returned, whatever the error is.
\<close>

definition decode ::
  "registry \<Rightarrow> Decoder \<Rightarrow> StartElement \<Rightarrow> Message \<times> error option \<times> Decoder" where
  "decode reg p se =
     (case DecodeElement_Message reg Message_zero p se of
        (err, packet, p') \<Rightarrow> (packet, err, p'))"


subsection \<open>Message.XMPPFormat\<close>






text \<open>
  An extension value is written under the name of the \<^verbatim>\<open>XMLName\<close> tag of its type,
  whatever its \<^verbatim>\<open>XMLName\<close> field holds; a field tagged \<^verbatim>\<open>xml:"id,attr"\<close> is always
  written.
\<close>

fun TypeOf :: "MsgExtension \<Rightarrow> reflect_Type" where
  "TypeOf (ReceiptRequest n) = T_ReceiptRequest"
| "TypeOf (ReceiptReceived n i) = T_ReceiptReceived"
| "TypeOf (ChatMarkerMarkable n) = T_ChatMarkerMarkable"
| "TypeOf (ChatMarkerReceived n i) = T_ChatMarkerReceived"
| "TypeOf (ChatMarkerDisplayed n i) = T_ChatMarkerDisplayed"
| "TypeOf (ChatMarkerAcknowledged n i) = T_ChatMarkerAcknowledged"






section \<open>One step of each loop\<close>

lemma decodeInner_Inl:
  "Decoder_Token d = (Inl err, d1) \<Longrightarrow> decodeInner reg start msg d = (Some err, msg, d1)"
  by (simp add: decodeInner.simps [of reg start msg d])

lemma decodeInner_Start:
  "Decoder_Token d = (Inr (Start tt), d1) \<Longrightarrow>
   decodeInner reg start msg d =
     (case decodeStartElement reg msg d1 tt of
        (Some err, msg', d2) \<Rightarrow> (Some err, msg', d2)
      | (None, msg', d2) \<Rightarrow> decodeInner reg start msg' d2)"
  by (simp add: decodeInner.simps [of reg start msg d])

lemma decodeInner_End:
  "Decoder_Token d = (Inr (End n), d1) \<Longrightarrow>
   decodeInner reg start msg d =
     (if n = ElemName start then (None, msg, d1) else decodeInner reg start msg d1)"
  by (simp add: decodeInner.simps [of reg start msg d] EndOf_def)

lemma decodeInner_other:
  "Decoder_Token d = (Inr t, d1) \<Longrightarrow> \<forall>se. t \<noteq> Start se \<Longrightarrow> \<forall>n. t \<noteq> End n \<Longrightarrow>
   decodeInner reg start msg d = decodeInner reg start msg d1"
  by (cases t) (auto simp: decodeInner.simps [of reg start msg d] EndOf_def)

text \<open>
  What the loop never writes: the five packet attributes, \<^verbatim>\<open>XMLName\<close> and \<^verbatim>\<open>X\<close>.
\<close>

definition same_frame :: "Message \<Rightarrow> Message \<Rightarrow> bool" where
  "same_frame msg msg' \<longleftrightarrow>
     Id_attr msg' = Id_attr msg \<and> From msg' = From msg \<and> To msg' = To msg \<and>
     Type msg' = Type msg \<and> Lang msg' = Lang msg \<and> XMLName msg' = XMLName msg \<and>
     X msg' = X msg"

lemma decodeDefault_frame:
  "decodeDefault msg d tt = (e, msg', d') \<Longrightarrow> same_frame msg msg'"
  unfolding decodeDefault_def same_frame_def
  by (auto split: if_splits prod.splits sum.splits)

lemma decodeStartElement_frame:
  "decodeStartElement reg msg d tt = (e, msg', d') \<Longrightarrow> same_frame msg msg'"
  unfolding decodeStartElement_def
  by (auto split: option.splits prod.splits sum.splits dest: decodeDefault_frame
      simp: same_frame_def)

lemma decodeInner_frame:
  "decodeInner reg start msg d = (e, msg', d') \<Longrightarrow> same_frame msg msg'"
proof (induction "length (toks d)" arbitrary: msg d rule: less_induct)
  case less
  obtain a d1 where tk: "Decoder_Token d = (a, d1)"
    by (cases "Decoder_Token d")
  show ?case
  proof (cases a)
    case (Inl err)
    with tk less.prems show ?thesis
      by (simp add: decodeInner_Inl same_frame_def)
  next
    case (Inr t)
    with tk have lt: "length (toks d1) < length (toks d)"
      by (simp add: Token_shrinks)
    show ?thesis
    proof (cases t)
      case (Start tt)
      obtain r m2 d2 where st: "decodeStartElement reg msg d1 tt = (r, m2, d2)"
        by (cases "decodeStartElement reg msg d1 tt")
      then have f2: "same_frame msg m2" and le: "length (toks d2) \<le> length (toks d1)"
        by (auto dest: decodeStartElement_frame decodeStartElement_shrinks)
      show ?thesis
      proof (cases r)
        case None
        with tk Inr Start st less.prems have "decodeInner reg start m2 d2 = (e, msg', d')"
          by (simp add: decodeInner_Start)
        with less.hyps [of d2 m2] lt le have "same_frame m2 msg'"
          by simp
        with f2 show ?thesis
          by (simp add: same_frame_def)
      next
        case (Some err)
        with tk Inr Start st less.prems f2 show ?thesis
          by (simp add: decodeInner_Start)
      qed
    next
      case (End n)
      with tk Inr less.prems less.hyps [OF lt, of msg] show ?thesis
        by (auto simp: decodeInner_End same_frame_def split: if_splits)
    next
      case (CharData s)
      with tk Inr less.prems less.hyps [OF lt, of msg] show ?thesis
        by (simp add: decodeInner_other)
    next
      case (Comment s)
      with tk Inr less.prems less.hyps [OF lt, of msg] show ?thesis
        by (simp add: decodeInner_other)
    next
      case (ProcInst s1 s2)
      with tk Inr less.prems less.hyps [OF lt, of msg] show ?thesis
        by (simp add: decodeInner_other)
    next
      case (Directive s)
      with tk Inr less.prems less.hyps [OF lt, of msg] show ?thesis
        by (simp add: decodeInner_other)
    qed
  qed
qed



section \<open>Packet attributes\<close>

text \<open>
  \<open>lastAttr k attrs dflt\<close> is the value of the last attribute of the list whose local
  name is \<open>k\<close>, and \<open>dflt\<close> when there is none. \<open>respace f\<close> puts an attribute into
  another namespace. \<open>recognized\<close> holds of the five local names the loop tests, and
  \<open>outcome\<close> is what a call returns apart from the message: the error and the decoder.
\<close>

definition lastAttr :: "string \<Rightarrow> Attr list \<Rightarrow> string \<Rightarrow> string" where
  "lastAttr k attrs dflt =
     (case filter (\<lambda>a. Local (AttrName a) = k) attrs of
        [] \<Rightarrow> dflt
      | a # as \<Rightarrow> Value (last (a # as)))"

definition respace :: "(Attr \<Rightarrow> string) \<Rightarrow> Attr \<Rightarrow> Attr" where
  "respace f a = Attr (Name (f a) (Local (AttrName a))) (Value a)"

definition recognized :: "Attr \<Rightarrow> bool" where
  "recognized a \<longleftrightarrow>
     Local (AttrName a) = ''id'' \<or> Local (AttrName a) = ''type'' \<or>
     Local (AttrName a) = ''to'' \<or> Local (AttrName a) = ''from'' \<or>
     Local (AttrName a) = ''lang''"

lemma lastAttr_Nil: "lastAttr k [] dflt = dflt"
  by (simp add: lastAttr_def)

lemma lastAttr_Cons:
  "lastAttr k (a # as) dflt = lastAttr k as (if Local (AttrName a) = k then Value a else dflt)"
  by (simp add: lastAttr_def split: list.splits)

lemma setAttr_fields:
  "Id_attr (setAttr a m) = (if Local (AttrName a) = ''id'' then Value a else Id_attr m)"
  "Type (setAttr a m) = (if Local (AttrName a) = ''type'' then Value a else Type m)"
  "To (setAttr a m) = (if Local (AttrName a) = ''to'' then Value a else To m)"
  "From (setAttr a m) = (if Local (AttrName a) = ''from'' then Value a else From m)"
  "Lang (setAttr a m) = (if Local (AttrName a) = ''lang'' then Value a else Lang m)"
  by (simp_all add: setAttr_def Let_def)

lemma extractAttrs_fields:
  "Id_attr (extractAttrs as m) = lastAttr ''id'' as (Id_attr m)"
  "Type (extractAttrs as m) = lastAttr ''type'' as (Type m)"
  "To (extractAttrs as m) = lastAttr ''to'' as (To m)"
  "From (extractAttrs as m) = lastAttr ''from'' as (From m)"
  "Lang (extractAttrs as m) = lastAttr ''lang'' as (Lang m)"
  by (induction as arbitrary: m; simp add: lastAttr_Nil lastAttr_Cons setAttr_fields)+

lemma setAttr_respace: "setAttr (respace f a) m = setAttr a m"
  by (simp add: setAttr_def respace_def)

lemma extractAttrs_respace: "extractAttrs (map (respace f) as) m = extractAttrs as m"
  by (induction as arbitrary: m) (simp_all add: setAttr_respace)

lemma setAttr_unrecognized: "\<not> recognized a \<Longrightarrow> setAttr a m = m"
  by (simp add: setAttr_def recognized_def)

lemma extractAttrs_filter: "extractAttrs (filter recognized as) m = extractAttrs as m"
  by (induction as arbitrary: m) (simp_all add: setAttr_unrecognized)


definition outcome :: "error option \<times> Message \<times> Decoder \<Rightarrow> error option \<times> Decoder" where
  "outcome r = (fst r, snd (snd r))"

lemma decodeDefault_outcome:
  "outcome (decodeDefault msg d tt) = outcome (decodeDefault msg2 d tt)"
  unfolding decodeDefault_def outcome_def
  by (auto split: prod.splits sum.splits)

lemma decodeStartElement_outcome:
  "outcome (decodeStartElement reg msg d tt) = outcome (decodeStartElement reg msg2 d tt)"
  using decodeDefault_outcome [of msg d tt msg2]
  unfolding decodeStartElement_def outcome_def
  by (auto split: option.splits prod.splits sum.splits)

lemma decodeInner_outcome:
  "ElemName start = ElemName start2 \<Longrightarrow>
   outcome (decodeInner reg start msg d) = outcome (decodeInner reg start2 msg2 d)"
proof (induction "length (toks d)" arbitrary: msg msg2 d rule: less_induct)
  case less
  note same = less.prems
  obtain a d1 where tk: "Decoder_Token d = (a, d1)"
    by (cases "Decoder_Token d")
  show ?case
  proof (cases a)
    case (Inl err)
    with tk show ?thesis
      by (simp add: decodeInner_Inl outcome_def)
  next
    case (Inr t)
    with tk have lt: "length (toks d1) < length (toks d)"
      by (simp add: Token_shrinks)
    show ?thesis
    proof (cases t)
      case (Start tt)
      obtain r m2 d2 where st: "decodeStartElement reg msg d1 tt = (r, m2, d2)"
        by (cases "decodeStartElement reg msg d1 tt")
      obtain r' m2' d2' where st': "decodeStartElement reg msg2 d1 tt = (r', m2', d2')"
        by (cases "decodeStartElement reg msg2 d1 tt")
      from decodeStartElement_outcome [of reg msg d1 tt msg2] st st'
      have eq: "r' = r" "d2' = d2"
        by (simp_all add: outcome_def)
      from st have le: "length (toks d2) \<le> length (toks d1)"
        by (rule decodeStartElement_shrinks)
      show ?thesis
      proof (cases r)
        case None
        from less.hyps [of d2 m2 m2'] lt le same
        have "outcome (decodeInner reg start m2 d2) = outcome (decodeInner reg start2 m2' d2)"
          by simp
        with tk Inr Start st st' eq None show ?thesis
          by (simp add: decodeInner_Start)
      next
        case (Some err)
        with tk Inr Start st st' eq show ?thesis
          by (simp add: decodeInner_Start outcome_def)
      qed
    next
      case (End n)
      with tk Inr same less.hyps [OF lt, of msg msg2] show ?thesis
        by (simp add: decodeInner_End outcome_def)
    next
      case (CharData s)
      with tk Inr same less.hyps [OF lt, of msg msg2] show ?thesis
        by (simp add: decodeInner_other)
    next
      case (Comment s)
      with tk Inr same less.hyps [OF lt, of msg msg2] show ?thesis
        by (simp add: decodeInner_other)
    next
      case (ProcInst s1 s2)
      with tk Inr same less.hyps [OF lt, of msg msg2] show ?thesis
        by (simp add: decodeInner_other)
    next
      case (Directive s)
      with tk Inr same less.hyps [OF lt, of msg msg2] show ?thesis
        by (simp add: decodeInner_other)
    qed
  qed
qed

lemma decodeInner_cases [consumes 0, case_names Failed ChildFailed Child Closed OtherEnd Other]:
  assumes "\<And>msg d err d1. Decoder_Token d = (Inl err, d1) \<Longrightarrow> P msg d"
    and "\<And>msg d tt d1 err m2 d2.
          Decoder_Token d = (Inr (Start tt), d1) \<Longrightarrow>
          decodeStartElement reg msg d1 tt = (Some err, m2, d2) \<Longrightarrow> P msg d"
    and "\<And>msg d tt d1 m2 d2.
          Decoder_Token d = (Inr (Start tt), d1) \<Longrightarrow>
          decodeStartElement reg msg d1 tt = (None, m2, d2) \<Longrightarrow>
          (\<And>m. P m d2) \<Longrightarrow> P msg d"
    and "\<And>msg d n d1. Decoder_Token d = (Inr (End n), d1) \<Longrightarrow> n = sn \<Longrightarrow> P msg d"
    and "\<And>msg d n d1.
          Decoder_Token d = (Inr (End n), d1) \<Longrightarrow> n \<noteq> sn \<Longrightarrow> (\<And>m. P m d1) \<Longrightarrow> P msg d"
    and "\<And>msg d t d1.
          Decoder_Token d = (Inr t, d1) \<Longrightarrow> \<forall>se. t \<noteq> Start se \<Longrightarrow> \<forall>n. t \<noteq> End n \<Longrightarrow>
          (\<And>m. P m d1) \<Longrightarrow> P msg d"
  shows "P msg d"
proof (induction "length (toks d)" arbitrary: msg d rule: less_induct)
  case less
  obtain a d1 where tk: "Decoder_Token d = (a, d1)"
    by (cases "Decoder_Token d")
  show ?case
  proof (cases a)
    case (Inl err)
    with tk show ?thesis
      by (auto intro: assms(1))
  next
    case (Inr t)
    with tk have lt: "length (toks d1) < length (toks d)"
      by (simp add: Token_shrinks)
    show ?thesis
    proof (cases t)
      case (Start tt)
      obtain r m2 d2 where st: "decodeStartElement reg msg d1 tt = (r, m2, d2)"
        by (cases "decodeStartElement reg msg d1 tt")
      then have "length (toks d2) < length (toks d)"
        using lt by (auto dest: decodeStartElement_shrinks)
      then have "P m d2" for m
        by (rule less.hyps)
      with tk Inr Start st show ?thesis
        by (cases r) (auto intro: assms(2) assms(3))
    next
      case (End n)
      with tk Inr less.hyps [OF lt] show ?thesis
        by (cases "n = sn") (auto intro: assms(4) assms(5))
    next
      case (CharData s)
      with tk Inr less.hyps [OF lt] show ?thesis
        by (auto intro: assms(6))
    next
      case (Comment s)
      with tk Inr less.hyps [OF lt] show ?thesis
        by (auto intro: assms(6))
    next
      case (ProcInst s1 s2)
      with tk Inr less.hyps [OF lt] show ?thesis
        by (auto intro: assms(6))
    next
      case (Directive s)
      with tk Inr less.hyps [OF lt] show ?thesis
        by (auto intro: assms(6))
    qed
  qed
qed

lemma decodeInner_start_name:
  assumes "ElemName start = ElemName start2"
  shows "decodeInner reg start msg d = decodeInner reg start2 msg d"
proof (induction msg d rule: decodeInner_cases [where reg = reg and sn = "ElemName start"])
  case (Failed msg d err d1)
  then show ?case by (simp add: decodeInner_Inl)
next
  case (ChildFailed msg d tt d1 err m2 d2)
  then show ?case by (simp add: decodeInner_Start)
next
  case (Child msg d tt d1 m2 d2)
  then show ?case by (simp add: decodeInner_Start)
next
  case (Closed msg d n d1)
  with assms show ?case by (simp add: decodeInner_End)
next
  case (OtherEnd msg d n d1)
  with assms show ?case by (simp add: decodeInner_End)
next
  case (Other msg d t d1)
  then show ?case by (simp add: decodeInner_other)
qed

lemma UnmarshalXML_frame:
  "same_frame (extractAttrs (ElemAttr start) (msg\<lparr>XMLName := ElemName start\<rparr>))
     (fst (snd (UnmarshalXML reg msg d start)))"
  unfolding UnmarshalXML_def
  by (metis decodeInner_frame prod.collapse)

lemma UnmarshalXML_fields:
  "Id_attr (fst (snd (UnmarshalXML reg msg d start))) = lastAttr ''id'' (ElemAttr start) (Id_attr msg)"
  "Type (fst (snd (UnmarshalXML reg msg d start))) = lastAttr ''type'' (ElemAttr start) (Type msg)"
  "To (fst (snd (UnmarshalXML reg msg d start))) = lastAttr ''to'' (ElemAttr start) (To msg)"
  "From (fst (snd (UnmarshalXML reg msg d start))) = lastAttr ''from'' (ElemAttr start) (From msg)"
  "Lang (fst (snd (UnmarshalXML reg msg d start))) = lastAttr ''lang'' (ElemAttr start) (Lang msg)"
  using UnmarshalXML_frame [of start msg reg d]
  by (simp_all add: same_frame_def extractAttrs_fields)


text \<open>
  C10. Attributes are matched by their local name alone. Whatever the decoder, the
  registry and the message before the call: after \<open>UnmarshalXML\<close> each of the five
  fields holds the value of the last attribute of the start tag with the field's local
  name (and its old value when there is none), and moving the attributes into other
  namespaces changes nothing of the result.
\<close>

theorem UnmarshalXML_attr_local_name_only:
  "Id_attr (fst (snd (UnmarshalXML reg msg d start))) =
     lastAttr ''id'' (ElemAttr start) (Id_attr msg) \<and>
   Type (fst (snd (UnmarshalXML reg msg d start))) =
     lastAttr ''type'' (ElemAttr start) (Type msg) \<and>
   To (fst (snd (UnmarshalXML reg msg d start))) =
     lastAttr ''to'' (ElemAttr start) (To msg) \<and>
   From (fst (snd (UnmarshalXML reg msg d start))) =
     lastAttr ''from'' (ElemAttr start) (From msg) \<and>
   Lang (fst (snd (UnmarshalXML reg msg d start))) =
     lastAttr ''lang'' (ElemAttr start) (Lang msg) \<and>
   UnmarshalXML reg msg d (StartElement n (map (respace f) attrs)) =
     UnmarshalXML reg msg d (StartElement n attrs)"
  by (simp add: UnmarshalXML_fields)
     (simp add: UnmarshalXML_def extractAttrs_respace
        decodeInner_start_name [of "StartElement n (map (respace f) attrs)" "StartElement n attrs"])


section \<open>The five attributes of a stanza start tag\<close>

definition the_five :: "(string \<times> string) list" where
  "the_five = [(''id'', ''42''), (''type'', ''chat''), (''to'', ''bob''),
     (''from'', ''alice''), (''lang'', ''en'')]"

lemma lastAttr_filter_recognized:
  "k \<in> {''id'', ''type'', ''to'', ''from'', ''lang''} \<Longrightarrow>
   lastAttr k (filter recognized as) dflt = lastAttr k as dflt"
  by (induction as arbitrary: dflt) (auto simp: lastAttr_Nil lastAttr_Cons recognized_def)

fun lastPair :: "string \<Rightarrow> (string \<times> string) list \<Rightarrow> string \<Rightarrow> string" where
  "lastPair k [] dflt = dflt"
| "lastPair k (p # ps) dflt = lastPair k ps (if fst p = k then snd p else dflt)"

lemma lastAttr_lastPair:
  "lastAttr k as dflt = lastPair k (map (\<lambda>a. (Local (AttrName a), Value a)) as) dflt"
  by (induction as arbitrary: dflt) (simp_all add: lastAttr_Nil lastAttr_Cons)


text \<open>
  C6. A start tag whose recognized attributes are \<^verbatim>\<open>id="42" type="chat" to="bob"
  from="alice" lang="en"\<close>, with any attributes of other local names among them: the
  five fields hold exactly these values after \<open>UnmarshalXML\<close>, and the error and the
  decoder the call returns are those of the same call on a start tag with no attribute,
  so no attribute raises an error.
\<close>

theorem UnmarshalXML_five_attributes:
  assumes "map (\<lambda>a. (Local (AttrName a), Value a)) (filter recognized attrs) = the_five"
  shows "Id_attr (fst (snd (UnmarshalXML reg msg d (StartElement n attrs)))) = ''42'' \<and>
         Type (fst (snd (UnmarshalXML reg msg d (StartElement n attrs)))) = ''chat'' \<and>
         To (fst (snd (UnmarshalXML reg msg d (StartElement n attrs)))) = ''bob'' \<and>
         From (fst (snd (UnmarshalXML reg msg d (StartElement n attrs)))) = ''alice'' \<and>
         Lang (fst (snd (UnmarshalXML reg msg d (StartElement n attrs)))) = ''en'' \<and>
         outcome (UnmarshalXML reg msg d (StartElement n attrs)) =
           outcome (UnmarshalXML reg msg d (StartElement n []))"
proof -
  have v: "lastAttr k attrs dflt = lastPair k the_five dflt"
    if "k \<in> {''id'', ''type'', ''to'', ''from'', ''lang''}" for k dflt
    using that assms lastAttr_filter_recognized [of k attrs dflt]
      lastAttr_lastPair [of k "filter recognized attrs" dflt]
    by simp
  have "outcome (UnmarshalXML reg msg d (StartElement n attrs)) =
        outcome (UnmarshalXML reg msg d (StartElement n []))"
    unfolding UnmarshalXML_def by (rule decodeInner_outcome) simp
  then show ?thesis
    by (simp add: UnmarshalXML_fields v the_five_def)
qed


definition attrs_C6 :: "Attr list" where
  "attrs_C6 =
     [Attr (Name [] ''id'') ''42'', Attr (Name ''xmlns'' ''foo'') ''bar'',
      Attr (Name [] ''type'') ''chat'', Attr (Name [] ''to'') ''bob'',
      Attr (Name [] ''from'') ''alice'',
      Attr (Name ''http://www.w3.org/XML/1998/namespace'' ''lang'') ''en'']"

definition decoder_C6 :: Decoder where
  "decoder_C6 =
     \<lparr>toks = [End (Name [] ''message'')], terr = EOF, stk = [Open (Name [] ''message'')]\<rparr>"

theorem UnmarshalXML_five_attributes_witness:
  "map (\<lambda>a. (Local (AttrName a), Value a)) (filter recognized attrs_C6) = the_five \<and>
   Id_attr (fst (snd (UnmarshalXML msgTypeRegistry Message_zero decoder_C6
      (StartElement (Name [] ''message'') attrs_C6)))) = ''42'' \<and>
   Lang (fst (snd (UnmarshalXML msgTypeRegistry Message_zero decoder_C6
      (StartElement (Name [] ''message'') attrs_C6)))) = ''en'' \<and>
   fst (UnmarshalXML msgTypeRegistry Message_zero decoder_C6
      (StartElement (Name [] ''message'') attrs_C6)) = None"
proof -
  have h: "map (\<lambda>a. (Local (AttrName a), Value a)) (filter recognized attrs_C6) = the_five"
    by (simp add: attrs_C6_def recognized_def the_five_def)
  have "fst (UnmarshalXML msgTypeRegistry Message_zero decoder_C6
      (StartElement (Name [] ''message'') [])) = None"
    by code_simp
  with UnmarshalXML_five_attributes [OF h, of msgTypeRegistry Message_zero decoder_C6
      "Name [] ''message''"] h
  show ?thesis
    by (simp add: outcome_def)
qed

section \<open>Well-formed input as trees\<close>

text \<open>
  A well-formed piece of a document is a list of nodes; \<open>tokens\<close> gives the tokens the
  reader hands out for it. \<open>direct_text\<close> is the character data that stands directly in
  an element with these children.
\<close>

datatype Node =
    Elem StartElement "Node list"
  | Chars string
  | CommentNode string
  | ProcInstNode string string
  | DirectiveNode string

fun tokens :: "Node \<Rightarrow> Token list" where
  "tokens (Elem se cs) = Start se # concat (map tokens cs) @ [End (ElemName se)]"
| "tokens (Chars s) = [CharData s]"
| "tokens (CommentNode s) = [Comment s]"
| "tokens (ProcInstNode t s) = [ProcInst t s]"
| "tokens (DirectiveNode s) = [Directive s]"

definition tokens_list :: "Node list \<Rightarrow> Token list" where
  "tokens_list ns = concat (map tokens ns)"

fun direct_text :: "Node list \<Rightarrow> string" where
  "direct_text [] = []"
| "direct_text (Chars s # ns) = s @ direct_text ns"
| "direct_text (n # ns) = direct_text ns"

lemma tokens_list_simps [simp]:
  "tokens_list [] = []"
  "tokens_list (n # ns) = tokens n @ tokens_list ns"
  "tokens_list (ns @ ms) = tokens_list ns @ tokens_list ms"
  by (simp_all add: tokens_list_def)

lemma tokens_Elem [simp]:
  "tokens (Elem se cs) = Start se # tokens_list cs @ [End (ElemName se)]"
  by (simp add: tokens_list_def)

declare tokens.simps(1) [simp del]

lemma Token_Start_eq:
  "Decoder_Token \<lparr>toks = Start se # ts, terr = e, stk = Open m # s\<rparr> =
     (Inr (Start se), \<lparr>toks = ts, terr = e, stk = Open (ElemName se) # Open m # s\<rparr>)"
  by (simp add: Decoder_Token.simps)

lemma Token_End_eq:
  "Decoder_Token \<lparr>toks = End m # ts, terr = e, stk = Open m # s\<rparr> =
     (Inr (End m), \<lparr>toks = ts, terr = e, stk = s\<rparr>)"
  by (simp add: Decoder_Token.simps)

lemma Token_CharData_eq:
  "Decoder_Token \<lparr>toks = CharData c # ts, terr = e, stk = Open m # s\<rparr> =
     (Inr (CharData c), \<lparr>toks = ts, terr = e, stk = Open m # s\<rparr>)"
  by (simp add: Decoder_Token.simps)

lemma Token_Comment_eq:
  "Decoder_Token \<lparr>toks = Comment c # ts, terr = e, stk = Open m # s\<rparr> =
     (Inr (Comment c), \<lparr>toks = ts, terr = e, stk = Open m # s\<rparr>)"
  by (simp add: Decoder_Token.simps)

lemma Token_ProcInst_eq:
  "Decoder_Token \<lparr>toks = ProcInst p q # ts, terr = e, stk = Open m # s\<rparr> =
     (Inr (ProcInst p q), \<lparr>toks = ts, terr = e, stk = Open m # s\<rparr>)"
  by (simp add: Decoder_Token.simps)

lemma Token_Directive_eq:
  "Decoder_Token \<lparr>toks = Directive c # ts, terr = e, stk = Open m # s\<rparr> =
     (Inr (Directive c), \<lparr>toks = ts, terr = e, stk = Open m # s\<rparr>)"
  by (simp add: Decoder_Token.simps)

definition deep_ok :: "Node \<Rightarrow> bool" where
  "deep_ok n \<longleftrightarrow>
     (\<forall>k data ts e m s.
        readElement (Suc k) data \<lparr>toks = tokens n @ ts, terr = e, stk = Open m # s\<rparr> =
        readElement (Suc k) data \<lparr>toks = ts, terr = e, stk = Open m # s\<rparr>)"

lemma deep_ok_list:
  "(\<And>n. n \<in> set ns \<Longrightarrow> deep_ok n) \<Longrightarrow>
   readElement (Suc k) data \<lparr>toks = tokens_list ns @ ts, terr = e, stk = Open m # s\<rparr> =
   readElement (Suc k) data \<lparr>toks = ts, terr = e, stk = Open m # s\<rparr>"
  by (induction ns) (simp_all add: deep_ok_def)

lemma deep_ok_all: "deep_ok n"
proof (induction n)
  case (Elem se cs)
  show ?case
    unfolding deep_ok_def
  proof (intro allI)
    fix k data ts e m s
    have "readElement (Suc k) data
            \<lparr>toks = tokens (Elem se cs) @ ts, terr = e, stk = Open m # s\<rparr> =
          readElement (Suc (Suc k)) data
            \<lparr>toks = tokens_list cs @ End (ElemName se) # ts, terr = e,
             stk = Open (ElemName se) # Open m # s\<rparr>"
      by (simp add: tokens_Elem readElement_Start [OF Token_Start_eq])
    also have "\<dots> = readElement (Suc (Suc k)) data
            \<lparr>toks = End (ElemName se) # ts, terr = e, stk = Open (ElemName se) # Open m # s\<rparr>"
      by (rule deep_ok_list) (rule Elem.IH)
    also have "\<dots> = readElement (Suc k) data \<lparr>toks = ts, terr = e, stk = Open m # s\<rparr>"
      by (simp add: readElement_End_Suc [OF Token_End_eq])
    finally show "readElement (Suc k) data
            \<lparr>toks = tokens (Elem se cs) @ ts, terr = e, stk = Open m # s\<rparr> =
          readElement (Suc k) data \<lparr>toks = ts, terr = e, stk = Open m # s\<rparr>" .
  qed
next
  case (Chars c)
  show ?case
    by (simp add: deep_ok_def readElement_CharData [OF Token_CharData_eq])
next
  case (CommentNode c)
  show ?case
    by (simp add: deep_ok_def readElement_other [OF Token_Comment_eq])
next
  case (ProcInstNode p q)
  show ?case
    by (simp add: deep_ok_def readElement_other [OF Token_ProcInst_eq])
next
  case (DirectiveNode c)
  show ?case
    by (simp add: deep_ok_def readElement_other [OF Token_Directive_eq])
qed

lemma readElement_deep:
  "readElement (Suc k) data \<lparr>toks = tokens_list ns @ ts, terr = e, stk = Open m # s\<rparr> =
   readElement (Suc k) data \<lparr>toks = ts, terr = e, stk = Open m # s\<rparr>"
  by (rule deep_ok_list) (rule deep_ok_all)

lemma readElement_content:
  "readElement 0 data \<lparr>toks = tokens_list ns @ ts, terr = e, stk = Open m # s\<rparr> =
   readElement 0 (data @ direct_text ns) \<lparr>toks = ts, terr = e, stk = Open m # s\<rparr>"
proof (induction ns arbitrary: data)
  case Nil
  show ?case by simp
next
  case (Cons n ns)
  show ?case
  proof (cases n)
    case (Elem se cs)
    have "readElement 0 data
            \<lparr>toks = tokens_list (n # ns) @ ts, terr = e, stk = Open m # s\<rparr> =
          readElement (Suc 0) data
            \<lparr>toks = tokens_list cs @ End (ElemName se) # tokens_list ns @ ts, terr = e,
             stk = Open (ElemName se) # Open m # s\<rparr>"
      by (simp add: Elem tokens_Elem readElement_Start [OF Token_Start_eq])
    also have "\<dots> = readElement (Suc 0) data
            \<lparr>toks = End (ElemName se) # tokens_list ns @ ts, terr = e,
             stk = Open (ElemName se) # Open m # s\<rparr>"
      by (rule readElement_deep)
    also have "\<dots> = readElement 0 data
            \<lparr>toks = tokens_list ns @ ts, terr = e, stk = Open m # s\<rparr>"
      by (simp add: readElement_End_Suc [OF Token_End_eq])
    finally show ?thesis
      by (simp add: Cons.IH Elem)
  next
    case (Chars c)
    then show ?thesis
      by (simp add: readElement_CharData [OF Token_CharData_eq] Cons.IH)
  next
    case (CommentNode c)
    then show ?thesis
      by (simp add: readElement_other [OF Token_Comment_eq] Cons.IH)
  next
    case (ProcInstNode p q)
    then show ?thesis
      by (simp add: readElement_other [OF Token_ProcInst_eq] Cons.IH)
  next
    case (DirectiveNode c)
    then show ?thesis
      by (simp add: readElement_other [OF Token_Directive_eq] Cons.IH)
  qed
qed

lemma readElement_element:
  "readElement 0 [] \<lparr>toks = tokens_list ns @ End m # ts, terr = e, stk = Open m # s\<rparr> =
   (Inr (direct_text ns), \<lparr>toks = ts, terr = e, stk = s\<rparr>)"
  by (simp add: readElement_content readElement_End_0 [OF Token_End_eq])

section \<open>Decoding the children of a well-formed stanza\<close>

text \<open>
  What the loop of \<open>UnmarshalXML\<close> does with a well-formed list of children, told on the
  trees. \<open>registry_ok\<close> says that every type stands in the registry under the name of
  its own \<^verbatim>\<open>XMLName\<close> tag, as \<^verbatim>\<open>init()\<close> registers them. A child is \<open>known\<close> when
  the registry has its name or the inner switch has its local name; \<open>child_effect\<close> is
  what one \<^verbatim>\<open>DecodeElement\<close> on a known child does to the message. A child that is not
  known is not read over: the loop goes on with the tokens inside it, so \<open>absorb\<close>
  descends into it. \<open>early\<close> holds when one of the elements the loop descends into
  has the name of the stanza itself, whose end tag the loop takes for the end of the
  stanza.
\<close>

lemma Skip_element:
  "Skip \<lparr>toks = tokens_list ns @ End m # ts, terr = e, stk = Open m # s\<rparr> =
     (None, \<lparr>toks = ts, terr = e, stk = s\<rparr>)"
  by (simp add: Skip_def readElement_element)



lemma DecodeElement_ext_element:
  "XMLName_tag ty = ElemName tt \<Longrightarrow>
   DecodeElement_ext ty \<lparr>toks = tokens_list ns @ End m # ts, terr = e, stk = Open m # s\<rparr> tt =
     (Inr (instance_of ty (ElemName tt) (attr_Id (ElemAttr tt) [])),
      \<lparr>toks = ts, terr = e, stk = s\<rparr>)"
  by (simp add: DecodeElement_ext_def Skip_element)


definition is_registered :: "registry \<Rightarrow> StartElement \<Rightarrow> bool" where
  "is_registered reg se \<longleftrightarrow>
     registry_lookup reg (Space (ElemName se)) (Local (ElemName se)) \<noteq> None"

definition is_default :: "StartElement \<Rightarrow> bool" where
  "is_default se \<longleftrightarrow>
     Local (ElemName se) = ''body'' \<or> Local (ElemName se) = ''thread'' \<or>
     Local (ElemName se) = ''subject'' \<or> Local (ElemName se) = ''error''"

definition known :: "registry \<Rightarrow> StartElement \<Rightarrow> bool" where
  "known reg se \<longleftrightarrow> is_registered reg se \<or> is_default se"

definition child_effect :: "registry \<Rightarrow> StartElement \<Rightarrow> Node list \<Rightarrow> Message \<Rightarrow> Message" where
  "child_effect reg se cs msg =
     (case registry_lookup reg (Space (ElemName se)) (Local (ElemName se)) of
        Some ty \<Rightarrow>
          msg\<lparr>Extensions :=
            Extensions msg @ [instance_of ty (ElemName se) (attr_Id (ElemAttr se) [])]\<rparr>
      | None \<Rightarrow>
          if Local (ElemName se) = ''body'' then msg\<lparr>Body := direct_text cs\<rparr>
          else if Local (ElemName se) = ''thread'' then msg\<lparr>Thread := direct_text cs\<rparr>
          else if Local (ElemName se) = ''subject'' then msg\<lparr>Subject := direct_text cs\<rparr>
          else if Local (ElemName se) = ''error'' then
            msg\<lparr>Error := Err (ElemAttr se) (tokens_list cs)\<rparr>
          else msg)"

fun absorb_node :: "registry \<Rightarrow> Node \<Rightarrow> Message \<Rightarrow> Message" where
  "absorb_node reg (Elem se cs) msg =
     (if known reg se then child_effect reg se cs msg
      else fold (absorb_node reg) cs msg)"
| "absorb_node reg n msg = msg"

definition absorb :: "registry \<Rightarrow> Node list \<Rightarrow> Message \<Rightarrow> Message" where
  "absorb reg ns msg = fold (absorb_node reg) ns msg"

fun early_node :: "registry \<Rightarrow> Name \<Rightarrow> Node \<Rightarrow> bool" where
  "early_node reg sn (Elem se cs) =
     (\<not> known reg se \<and> (ElemName se = sn \<or> list_ex (early_node reg sn) cs))"
| "early_node reg sn n = False"

definition early :: "registry \<Rightarrow> Name \<Rightarrow> Node list \<Rightarrow> bool" where
  "early reg sn ns = list_ex (early_node reg sn) ns"

lemma absorb_simps [simp]:
  "absorb reg [] msg = msg"
  "absorb reg (n # ns) msg = absorb reg ns (absorb_node reg n msg)"
  "absorb reg (ns @ ms) msg = absorb reg ms (absorb reg ns msg)"
  by (simp_all add: absorb_def)

lemma early_simps [simp]:
  "early reg sn [] = False"
  "early reg sn (n # ns) = (early_node reg sn n \<or> early reg sn ns)"
  "early reg sn (ns @ ms) = (early reg sn ns \<or> early reg sn ms)"
  by (simp_all add: early_def)


lemma early_node_Elem [simp]:
  "early_node reg sn (Elem se cs) =
     (\<not> known reg se \<and> (ElemName se = sn \<or> early reg sn cs))"
  by (simp add: early_def)

declare absorb_node.simps(1) [simp del] early_node.simps(1) [simp del]








section \<open>Extensions and the registry\<close>

text \<open>
  \<open>registered_instance reg x\<close>: the registry has, under the name in the \<^verbatim>\<open>XMLName\<close> of
  \<open>x\<close>, the type of \<open>x\<close>. \<open>appended reg msg msg'\<close>: the extensions of \<open>msg'\<close> are those
  of \<open>msg\<close> followed by registered instances.
\<close>

fun ext_XMLName :: "MsgExtension \<Rightarrow> Name" where
  "ext_XMLName (ReceiptRequest n) = n"
| "ext_XMLName (ReceiptReceived n i) = n"
| "ext_XMLName (ChatMarkerMarkable n) = n"
| "ext_XMLName (ChatMarkerReceived n i) = n"
| "ext_XMLName (ChatMarkerDisplayed n i) = n"
| "ext_XMLName (ChatMarkerAcknowledged n i) = n"



lemma TypeOf_instance_of [simp]: "TypeOf (instance_of ty n i) = ty"
  by (cases ty) simp_all

lemma ext_XMLName_instance_of [simp]: "ext_XMLName (instance_of ty n i) = n"
  by (cases ty) simp_all







lemma setAttr_Extensions [simp]: "Extensions (setAttr a m) = Extensions m"
  by (simp add: setAttr_def Let_def)

lemma extractAttrs_Extensions [simp]: "Extensions (extractAttrs as m) = Extensions m"
  by (induction as arbitrary: m) simp_all






definition start_message :: StartElement where
  "start_message = StartElement (Name ''jabber:client'' ''message'') []"


text \<open>
  C8. The registry is asked with the namespace as well as the local name. Let the type
  \<open>tx\<close> be registered under \<open>(nsA, foo)\<close>, the name of its own tag, and another type
  \<open>ty\<close> under \<open>(nsB, foo)\<close>. A stanza whose child is the element \<open>(nsA, foo)\<close>, with any
  attributes and any well-formed content, decodes with no error, the decoder stands
  after the end tag of the stanza, and exactly one instance is appended: one of type
  \<open>tx\<close>, not of type \<open>ty\<close>.
\<close>

theorem registry_lookup_by_namespace:
  assumes "registry_lookup reg nsA foo = Some tx"
    and "registry_lookup reg nsB foo = Some ty"
    and "tx \<noteq> ty"
    and "XMLName_tag tx = Name nsA foo"
  shows "UnmarshalXML reg msg
           \<lparr>toks = tokens (Elem (StartElement (Name nsA foo) attrs) cs) @
                   End (ElemName start) # ts,
            terr = e, stk = Open (ElemName start) # s\<rparr> start =
         (None,
          (extractAttrs (ElemAttr start) (msg\<lparr>XMLName := ElemName start\<rparr>))
            \<lparr>Extensions := Extensions msg @ [instance_of tx (Name nsA foo) (attr_Id attrs [])]\<rparr>,
          \<lparr>toks = ts, terr = e, stk = s\<rparr>) \<and>
         TypeOf (instance_of tx (Name nsA foo) (attr_Id attrs [])) = tx \<and>
         TypeOf (instance_of tx (Name nsA foo) (attr_Id attrs [])) \<noteq> ty"
proof -
  let ?tt = "StartElement (Name nsA foo) attrs"
  let ?m = "extractAttrs (ElemAttr start) (msg\<lparr>XMLName := ElemName start\<rparr>)"
  let ?x = "instance_of tx (Name nsA foo) (attr_Id attrs [])"
  let ?d1 = "\<lparr>toks = tokens_list cs @ End (Name nsA foo) # End (ElemName start) # ts,
              terr = e, stk = Open (Name nsA foo) # Open (ElemName start) # s\<rparr>"
  let ?d2 = "\<lparr>toks = End (ElemName start) # ts, terr = e, stk = Open (ElemName start) # s\<rparr>"
  have child: "decodeStartElement reg ?m ?d1 ?tt =
      (None, ?m\<lparr>Extensions := Extensions ?m @ [?x]\<rparr>, ?d2)"
    using assms(1,4) by (simp add: decodeStartElement_def DecodeElement_ext_element)
  have "decodeInner reg start ?m
      \<lparr>toks = Start ?tt # tokens_list cs @ End (Name nsA foo) # End (ElemName start) # ts,
       terr = e, stk = Open (ElemName start) # s\<rparr> =
      decodeInner reg start (?m\<lparr>Extensions := Extensions ?m @ [?x]\<rparr>) ?d2"
    by (simp add: decodeInner_Start [OF Token_Start_eq] child del: extractAttrs_Extensions)
  also have "\<dots> = (None, ?m\<lparr>Extensions := Extensions ?m @ [?x]\<rparr>,
      \<lparr>toks = ts, terr = e, stk = s\<rparr>)"
    by (simp add: decodeInner_End [OF Token_End_eq])
  finally show ?thesis
    using assms(3) by (simp add: UnmarshalXML_def)
qed

definition receipt_received :: Node where
  "receipt_received =
     Elem (StartElement (Name ''urn:xmpp:receipts'' ''received'')
       [Attr (Name [] ''xmlns'') ''urn:xmpp:receipts'', Attr (Name [] ''id'') ''m1'']) []"

theorem registry_lookup_by_namespace_witness:
  "registry_lookup msgTypeRegistry ''urn:xmpp:receipts'' ''received'' = Some T_ReceiptReceived \<and>
   registry_lookup msgTypeRegistry ''urn:xmpp:chat-markers:0'' ''received'' =
     Some T_ChatMarkerReceived \<and>
   Extensions (fst (snd (UnmarshalXML msgTypeRegistry Message_zero
     \<lparr>toks = tokens receipt_received @ End (ElemName start_message) # [], terr = EOF,
      stk = Open (ElemName start_message) # []\<rparr> start_message))) =
     [ReceiptReceived (Name ''urn:xmpp:receipts'' ''received'') ''m1'']"
proof -
  have a: "registry_lookup msgTypeRegistry ''urn:xmpp:receipts'' ''received'' =
      Some T_ReceiptReceived"
    by (simp add: registry_lookup_def msgTypeRegistry_def NSSpaceXEP0184Receipt_def
        NSSpaceXEP0333ChatMarkers_def)
  have b: "registry_lookup msgTypeRegistry ''urn:xmpp:chat-markers:0'' ''received'' =
      Some T_ChatMarkerReceived"
    by (simp add: registry_lookup_def msgTypeRegistry_def NSSpaceXEP0184Receipt_def
        NSSpaceXEP0333ChatMarkers_def)
  have c: "T_ReceiptReceived \<noteq> T_ChatMarkerReceived"
    by simp
  have d: "XMLName_tag T_ReceiptReceived = Name ''urn:xmpp:receipts'' ''received''"
    by simp
  from registry_lookup_by_namespace [OF a b c d, of Message_zero
      "[Attr (Name [] ''xmlns'') ''urn:xmpp:receipts'', Attr (Name [] ''id'') ''m1'']" "[]"
      start_message "[]" EOF "[]"] a b
  show ?thesis
    by (simp add: receipt_received_def Message_zero_def start_message_def)
qed

section \<open>Order of the extensions and repeated children\<close>
























section \<open>Malformed input, unknown children and the out-of-band element\<close>


fun closes :: "Token list \<Rightarrow> Name list \<Rightarrow> bool" where
  "closes ts [] = True"
| "closes [] opens = False"
| "closes (Start se # ts) opens = closes ts (ElemName se # opens)"
| "closes (End n # ts) (m # opens) = (n = m \<and> closes ts opens)"
| "closes (t # ts) opens = closes ts opens"














definition nested_message_C2 :: "Token list" where
  "nested_message_C2 =
     [Start (StartElement (Name ''jabber:client'' ''foo'') []),
      Start (StartElement (Name ''jabber:client'' ''message'') []),
      End (Name ''jabber:client'' ''message''),
      End (Name ''jabber:client'' ''foo''),
      End (Name ''jabber:client'' ''message''),
      Start (StartElement (Name ''jabber:client'' ''presence'') []),
      End (Name ''jabber:client'' ''presence'')]"

definition nested_body_C2 :: "Token list" where
  "nested_body_C2 =
     [Start (StartElement (Name ''jabber:client'' ''foo'') []),
      Start (StartElement (Name ''jabber:client'' ''body'') []),
      CharData ''inner'',
      End (Name ''jabber:client'' ''body''),
      End (Name ''jabber:client'' ''foo''),
      End (Name ''jabber:client'' ''message'')]"

text \<open>
  C2 fails on the code. The inner switch has no case for a start element that is
  neither registered nor one of its four names, and no \<^verbatim>\<open>d.Skip()\<close>: the loop goes on
  with the tokens inside that element. On
  \<^verbatim>\<open><message><foo><message></message></foo></message><presence></presence>\<close>
  the call returns nil at the end tag of the inner \<^verbatim>\<open>message\<close> and leaves
  \<^verbatim>\<open></foo></message>\<close> unread before the next stanza; on
  \<^verbatim>\<open><message><foo><body>inner</body></foo></message>\<close> the \<^verbatim>\<open>body\<close> inside
  \<^verbatim>\<open>foo\<close> is decoded as if it were a child of the stanza.
\<close>

theorem UnmarshalXML_descends_into_unknown_child:
  "closes nested_message_C2 [ElemName start_message] \<and>
   fst (UnmarshalXML msgTypeRegistry Message_zero
     \<lparr>toks = nested_message_C2, terr = EOF, stk = [Open (ElemName start_message)]\<rparr>
     start_message) = None \<and>
   toks (snd (snd (UnmarshalXML msgTypeRegistry Message_zero
     \<lparr>toks = nested_message_C2, terr = EOF, stk = [Open (ElemName start_message)]\<rparr>
     start_message))) =
     [End (Name ''jabber:client'' ''foo''),
      End (Name ''jabber:client'' ''message''),
      Start (StartElement (Name ''jabber:client'' ''presence'') []),
      End (Name ''jabber:client'' ''presence'')] \<and>
   closes nested_body_C2 [ElemName start_message] \<and>
   Body (fst (snd (UnmarshalXML msgTypeRegistry Message_zero
     \<lparr>toks = nested_body_C2, terr = EOF, stk = [Open (ElemName start_message)]\<rparr>
     start_message))) = ''inner''"
proof -
  have a: "closes nested_message_C2 [ElemName start_message]"
    by (simp add: nested_message_C2_def start_message_def)
  have b: "fst (UnmarshalXML msgTypeRegistry Message_zero
     \<lparr>toks = nested_message_C2, terr = EOF, stk = [Open (ElemName start_message)]\<rparr>
     start_message) = None"
    by code_simp
  have c: "toks (snd (snd (UnmarshalXML msgTypeRegistry Message_zero
     \<lparr>toks = nested_message_C2, terr = EOF, stk = [Open (ElemName start_message)]\<rparr>
     start_message))) =
     [End (Name ''jabber:client'' ''foo''),
      End (Name ''jabber:client'' ''message''),
      Start (StartElement (Name ''jabber:client'' ''presence'') []),
      End (Name ''jabber:client'' ''presence'')]"
    by code_simp
  have d: "closes nested_body_C2 [ElemName start_message]"
    by (simp add: nested_body_C2_def start_message_def)
  have e: "Body (fst (snd (UnmarshalXML msgTypeRegistry Message_zero
     \<lparr>toks = nested_body_C2, terr = EOF, stk = [Open (ElemName start_message)]\<rparr>
     start_message))) = ''inner''"
    by code_simp
  from a b c d e show ?thesis
    by blast
qed

definition oob_C3 :: "Token list" where
  "oob_C3 =
     [Start (StartElement (Name ''jabber:x:oob'' ''x'')
        [Attr (Name [] ''xmlns'') ''jabber:x:oob'']),
      Start (StartElement (Name ''jabber:x:oob'' ''url'') []),
      CharData ''http://example.org/a.png'',
      End (Name ''jabber:x:oob'' ''url''),
      End (Name ''jabber:x:oob'' ''x''),
      End (Name ''jabber:client'' ''message'')]"

lemma UnmarshalXML_keeps_X: "X (fst (snd (UnmarshalXML reg msg d start))) = X msg"
proof -
  have "X (extractAttrs as m) = X m" for as m
    by (induction as arbitrary: m) (simp_all add: setAttr_def Let_def)
  with UnmarshalXML_frame [of start msg reg d] show ?thesis
    by (simp add: same_frame_def)
qed

text \<open>
  C3 fails on the code. \<^verbatim>\<open>Message\<close> has the field \<^verbatim>\<open>X *MsgXOOB\<close> and
  \<^verbatim>\<open>XMPPFormat\<close> writes it, but \<^verbatim>\<open>UnmarshalXML\<close> has no case for the element
  \<^verbatim>\<open>x\<close> of \<^verbatim>\<open>jabber:x:oob\<close>: the registry does not have it and the inner switch
  names only \<^verbatim>\<open>body\<close>, \<^verbatim>\<open>thread\<close>, \<^verbatim>\<open>subject\<close> and \<^verbatim>\<open>error\<close>. On
  \<^verbatim>\<open><message><x xmlns="jabber:x:oob"><url>http://example.org/a.png</url></x></message>\<close>
  the call returns nil and \<^verbatim>\<open>X\<close> is still nil. (By \<open>UnmarshalXML_keeps_X\<close> no input
  at all makes the call write \<^verbatim>\<open>X\<close>.)
\<close>

theorem UnmarshalXML_drops_oob:
  "fst (decode msgTypeRegistry
     \<lparr>toks = oob_C3, terr = EOF, stk = [Open (ElemName start_message)]\<rparr> start_message) =
     Message_zero\<lparr>XMLName := Name ''jabber:client'' ''message''\<rparr> \<and>
   fst (snd (decode msgTypeRegistry
     \<lparr>toks = oob_C3, terr = EOF, stk = [Open (ElemName start_message)]\<rparr> start_message)) =
     None \<and>
   X (fst (decode msgTypeRegistry
     \<lparr>toks = oob_C3, terr = EOF, stk = [Open (ElemName start_message)]\<rparr> start_message)) =
     None"
proof -
  have a: "fst (decode msgTypeRegistry
     \<lparr>toks = oob_C3, terr = EOF, stk = [Open (ElemName start_message)]\<rparr> start_message) =
     Message_zero\<lparr>XMLName := Name ''jabber:client'' ''message''\<rparr>"
    by code_simp
  have b: "fst (snd (decode msgTypeRegistry
     \<lparr>toks = oob_C3, terr = EOF, stk = [Open (ElemName start_message)]\<rparr> start_message)) =
     None"
    by code_simp
  from a b show ?thesis
    by (simp add: Message_zero_def)
qed

section \<open>Encoding and decoding again\<close>






























end
